theory Spec2Isabelle
  imports Complex_Main
begin

section \<open>Numbers\<close>

text \<open>
  A TypeScript \<open>number\<close> is modelled as an exact real extended with the three special
  values of IEEE arithmetic: \<open>NaN\<close>, \<open>Infinity\<close> and \<open>-Infinity\<close>. The special values
  follow the IEEE rules (a \<open>NaN\<close> operand gives \<open>NaN\<close>, every comparison with \<open>NaN\<close> is
  false, \<open>0/0\<close> and \<open>Infinity - Infinity\<close> are \<open>NaN\<close>). Finite results are exact:
  rounding error and the sign of zero are not modelled.
\<close>

datatype number = NaN | PInf | NInf | Fin real

fun js_neg :: "number \<Rightarrow> number" where
  "js_neg NaN = NaN"
| "js_neg PInf = NInf"
| "js_neg NInf = PInf"
| "js_neg (Fin a) = Fin (- a)"

fun js_add :: "number \<Rightarrow> number \<Rightarrow> number" where
  "js_add (Fin a) (Fin b) = Fin (a + b)"
| "js_add NaN _ = NaN"
| "js_add _ NaN = NaN"
| "js_add PInf NInf = NaN"
| "js_add NInf PInf = NaN"
| "js_add PInf _ = PInf"
| "js_add _ PInf = PInf"
| "js_add NInf _ = NInf"
| "js_add _ NInf = NInf"

definition js_sub :: "number \<Rightarrow> number \<Rightarrow> number" where
  "js_sub a b = js_add a (js_neg b)"

text \<open>The sign of an infinite product or quotient, from the sign of the finite operand;
  a finite zero counts as \<open>+0\<close>.\<close>

fun signed_inf :: "bool \<Rightarrow> number" where
  "signed_inf True = PInf"
| "signed_inf False = NInf"

fun js_mul :: "number \<Rightarrow> number \<Rightarrow> number" where
  "js_mul (Fin a) (Fin b) = Fin (a * b)"
| "js_mul NaN _ = NaN"
| "js_mul _ NaN = NaN"
| "js_mul (Fin a) PInf = (if a = 0 then NaN else signed_inf (0 < a))"
| "js_mul (Fin a) NInf = (if a = 0 then NaN else signed_inf (a < 0))"
| "js_mul PInf (Fin b) = (if b = 0 then NaN else signed_inf (0 < b))"
| "js_mul NInf (Fin b) = (if b = 0 then NaN else signed_inf (b < 0))"
| "js_mul PInf PInf = PInf"
| "js_mul PInf NInf = NInf"
| "js_mul NInf PInf = NInf"
| "js_mul NInf NInf = PInf"

fun js_div :: "number \<Rightarrow> number \<Rightarrow> number" where
  "js_div (Fin a) (Fin b) =
     (if b = 0 then (if a = 0 then NaN else signed_inf (0 < a)) else Fin (a / b))"
| "js_div NaN _ = NaN"
| "js_div _ NaN = NaN"
| "js_div (Fin a) PInf = Fin 0"
| "js_div (Fin a) NInf = Fin 0"
| "js_div PInf (Fin b) = signed_inf (0 \<le> b)"
| "js_div NInf (Fin b) = signed_inf (b < 0)"
| "js_div PInf PInf = NaN"
| "js_div PInf NInf = NaN"
| "js_div NInf PInf = NaN"
| "js_div NInf NInf = NaN"

fun js_lt :: "number \<Rightarrow> number \<Rightarrow> bool" where
  "js_lt (Fin a) (Fin b) = (a < b)"
| "js_lt NaN _ = False"
| "js_lt _ NaN = False"
| "js_lt _ NInf = False"
| "js_lt PInf _ = False"
| "js_lt NInf _ = True"
| "js_lt _ PInf = True"

fun js_le :: "number \<Rightarrow> number \<Rightarrow> bool" where
  "js_le (Fin a) (Fin b) = (a \<le> b)"
| "js_le NaN _ = False"
| "js_le _ NaN = False"
| "js_le NInf _ = True"
| "js_le _ PInf = True"
| "js_le PInf _ = False"
| "js_le _ NInf = False"

definition js_gt :: "number \<Rightarrow> number \<Rightarrow> bool" where
  "js_gt a b = js_lt b a"

definition js_ge :: "number \<Rightarrow> number \<Rightarrow> bool" where
  "js_ge a b = js_le b a"

fun js_sqrt :: "number \<Rightarrow> number" where
  "js_sqrt NaN = NaN"
| "js_sqrt PInf = PInf"
| "js_sqrt NInf = NaN"
| "js_sqrt (Fin a) = (if a < 0 then NaN else Fin (sqrt a))"

text \<open>
  \<open>Number(v.toFixed(digits))\<close>: a finite value below \<open>10^21\<close> in magnitude is rounded to
  \<open>digits\<close> decimals, a tie going away from zero; a larger one, \<open>NaN\<close> and the infinities
  are printed by \<open>ToString\<close> and read back unchanged.
\<close>

fun Number_toFixed :: "nat \<Rightarrow> number \<Rightarrow> number" where
  "Number_toFixed digits (Fin a) =
     (if 10 ^ 21 \<le> \<bar>a\<bar> then Fin a
      else Fin (sgn a * real_of_int \<lfloor>\<bar>a\<bar> * 10 ^ digits + 1 / 2\<rfloor> / 10 ^ digits))"
| "Number_toFixed digits v = v"

fun is_finite :: "number \<Rightarrow> bool" where
  "is_finite (Fin a) = True"
| "is_finite _ = False"

section \<open>The data model\<close>

text \<open>
  A \<open>MousePosition\<close> is a mutable object: \<open>moveFreeDraw\<close> and \<open>resizeFreeDraw\<close> write
  its fields in place, and the \<open>positions\<close> array of a stroke holds references to such
  objects. The objects live in a store indexed by reference.
\<close>

record MousePosition =
  pos_x :: number
  pos_y :: number

type_synonym ref = nat

type_synonym store = "ref \<Rightarrow> MousePosition"

text \<open>\<open>FreeDrawRect\<close>: the fields \<open>width\<close>, \<open>height\<close>, \<open>x\<close>, \<open>y\<close> of \<open>ElementRect\<close>
  (prefixed here) and the four extents.\<close>

record FreeDrawRect =
  rect_width :: number
  rect_height :: number
  rect_x :: number
  rect_y :: number
  minX :: number
  maxX :: number
  minY :: number
  maxY :: number

datatype CANVAS_ELE_TYPE = FREE_DRAW

datatype RESIZE_TYPE = BOTTOM_RIGHT | BOTTOM_LEFT | TOP_LEFT | TOP_RIGHT | OTHER_RESIZE

text \<open>The class \<open>FreeDraw\<close>; \<open>ele_type\<close> and \<open>layer\<close> are what the constructor hands
  to the base class \<open>CanvasElement\<close>.\<close>

record FreeDraw =
  ele_type :: CANVAS_ELE_TYPE
  layer :: number
  positions :: "ref list"
  color :: string
  maxWidth :: number
  minWidth :: number
  lineWidths :: "number list"
  maxSpeed :: number
  minSpeed :: number
  lastMoveTime :: number
  lastLineWidth :: number
  rect :: FreeDrawRect

section \<open>The operations\<close>

definition emptyRect :: FreeDrawRect where
  "emptyRect =
     \<lparr>rect_width = Fin 0, rect_height = Fin 0, rect_x = Fin 0, rect_y = Fin 0,
      minX = PInf, maxX = NInf, minY = PInf, maxY = NInf\<rparr>"

definition new_FreeDraw :: "string \<Rightarrow> number \<Rightarrow> number \<Rightarrow> FreeDraw" where
  "new_FreeDraw color' width layer' =
     \<lparr>ele_type = FREE_DRAW, layer = layer',
      positions = [],
      color = color',
      maxWidth = width,
      minWidth = js_div width (Fin 2),
      lineWidths = [Fin 0],
      maxSpeed = Fin 10,
      minSpeed = Fin (1 / 2),
      lastMoveTime = Fin 0,
      lastLineWidth = width,
      rect = emptyRect\<rparr>"

definition initRect :: "FreeDraw \<Rightarrow> FreeDraw" where
  "initRect instance = instance\<lparr>rect := emptyRect\<rparr>"

definition calculateRect :: "FreeDraw \<Rightarrow> MousePosition \<Rightarrow> FreeDraw" where
  "calculateRect instance position =
     (let x = pos_x position; y = pos_y position;
          minX0 = minX (rect instance); maxX0 = maxX (rect instance);
          minY0 = minY (rect instance); maxY0 = maxY (rect instance);
          minX1 = (if js_lt x minX0 then x else minX0);
          maxX1 = (if js_gt x maxX0 then x else maxX0);
          minY1 = (if js_lt y minY0 then y else minY0);
          maxY1 = (if js_gt y maxY0 then y else maxY0)
      in instance\<lparr>rect :=
           \<lparr>rect_width = js_sub maxX1 minX1, rect_height = js_sub maxY1 minY1,
            rect_x = minX1, rect_y = minY1,
            minX = minX1, maxX = maxX1, minY = minY1, maxY = maxY1\<rparr>\<rparr>)"

text \<open>Modelled from the spec: \<open>getDistance\<close> is imported from a module that is not among
  the sources; the spec names it as the Euclidean distance between two positions.\<close>

definition getDistance :: "MousePosition \<Rightarrow> MousePosition \<Rightarrow> number" where
  "getDistance start end' =
     (let dx = js_sub (pos_x start) (pos_x end'); dy = js_sub (pos_y start) (pos_y end')
      in js_sqrt (js_add (js_mul dx dx) (js_mul dy dy)))"

text \<open>\<open>_computedSpeed\<close>; \<open>now\<close> is what \<open>Date.now()\<close> returns in this call, in
  milliseconds.\<close>

definition computedSpeed ::
  "int \<Rightarrow> MousePosition \<Rightarrow> MousePosition \<Rightarrow> FreeDraw \<Rightarrow> number \<times> FreeDraw" where
  "computedSpeed now start end' this =
     (let moveDistance = getDistance start end';
          curTime = Fin (real_of_int now);
          moveTime = js_sub curTime (lastMoveTime this);
          mouseSpeed = js_div moveDistance moveTime
      in (Number_toFixed 5 mouseSpeed, this\<lparr>lastMoveTime := curTime\<rparr>))"

text \<open>The three-way choice of \<open>_computedLineWidth\<close>, before smoothing.\<close>

definition rawLineWidth :: "FreeDraw \<Rightarrow> number \<Rightarrow> number" where
  "rawLineWidth this speed =
     (if js_ge speed (maxSpeed this) then minWidth this
      else if js_le speed (minSpeed this) then maxWidth this
      else js_sub (maxWidth this) (js_mul (js_div speed (maxSpeed this)) (maxWidth this)))"

definition computedLineWidth :: "number \<Rightarrow> FreeDraw \<Rightarrow> number \<times> FreeDraw" where
  "computedLineWidth speed this =
     (let lineWidth = rawLineWidth this speed;
          lineWidth = js_add (js_mul lineWidth (js_div (Fin 1) (Fin 3)))
                             (js_mul (lastLineWidth this) (js_div (Fin 2) (Fin 3)))
      in (lineWidth, this\<lparr>lastLineWidth := lineWidth\<rparr>))"

text \<open>\<open>addPosition\<close> pushes the reference it is given; \<open>h\<close> is the store at the call.\<close>

definition addPosition :: "store \<Rightarrow> int \<Rightarrow> ref \<Rightarrow> FreeDraw \<Rightarrow> FreeDraw" where
  "addPosition h now position this =
     (let this = this\<lparr>positions := positions this @ [position]\<rparr>;
          this = calculateRect this (h position)
      in if 1 < length (positions this) then
           (let (mouseSpeed, this) =
                  computedSpeed now
                    (h (positions this ! (length (positions this) - 2)))
                    (h (positions this ! (length (positions this) - 1))) this;
                (lineWidth, this) = computedLineWidth mouseSpeed this
            in this\<lparr>lineWidths := lineWidths this @ [lineWidth]\<rparr>)
         else this)"

text \<open>\<open>positions.forEach\<close> with a body that writes the visited object and then folds it
  into the box: \<open>f\<close> is the new value of the object, from its old one.\<close>

definition forEachPosition ::
  "(MousePosition \<Rightarrow> MousePosition) \<Rightarrow> store \<times> FreeDraw \<Rightarrow> store \<times> FreeDraw" where
  "forEachPosition f s =
     fold (\<lambda>position (h, instance).
             (h(position := f (h position)), calculateRect instance (f (h position))))
          (positions (snd s)) s"

definition moveFreeDraw ::
  "store \<times> FreeDraw \<Rightarrow> number \<Rightarrow> number \<Rightarrow> store \<times> FreeDraw" where
  "moveFreeDraw s xDistance yDistance =
     forEachPosition
       (\<lambda>position. position\<lparr>pos_x := js_add (pos_x position) xDistance,
                              pos_y := js_add (pos_y position) yDistance\<rparr>)
       (fst s, initRect (snd s))"

text \<open>\<open>resizeFreeDraw\<close>; the constant \<open>RECT_MIN_SIZE\<close> is declared in a module that is
  not among the sources and is a parameter here.\<close>

definition resizeFreeDraw ::
  "number \<Rightarrow> store \<times> FreeDraw \<Rightarrow> number \<Rightarrow> number \<Rightarrow> FreeDrawRect \<Rightarrow> RESIZE_TYPE
     \<Rightarrow> store \<times> FreeDraw" where
  "resizeFreeDraw RECT_MIN_SIZE s scaleX scaleY rect' resizeType =
     (if (js_le (rect_width (rect (snd s))) RECT_MIN_SIZE \<and> js_lt scaleX (Fin 1)) \<or>
         (js_le (rect_height (rect (snd s))) RECT_MIN_SIZE \<and> js_lt scaleY (Fin 1))
      then s
      else
        (let s1 = forEachPosition
                    (\<lambda>position. position\<lparr>pos_x := js_mul (pos_x position) scaleX,
                                           pos_y := js_mul (pos_y position) scaleY\<rparr>)
                    (fst s, initRect (snd s));
             newX = rect_x (rect (snd s1)); newY = rect_y (rect (snd s1));
             newWidth = rect_width (rect (snd s1)); newHeight = rect_height (rect (snd s1));
             (offsetX, offsetY) =
               (case resizeType of
                  BOTTOM_RIGHT \<Rightarrow> (js_sub newX (rect_x rect'), js_sub newY (rect_y rect'))
                | BOTTOM_LEFT \<Rightarrow>
                    (js_sub (js_add newX newWidth) (js_add (rect_x rect') (rect_width rect')),
                     js_sub newY (rect_y rect'))
                | TOP_LEFT \<Rightarrow>
                    (js_sub (js_add newX newWidth) (js_add (rect_x rect') (rect_width rect')),
                     js_sub (js_add newY newHeight) (js_add (rect_y rect') (rect_height rect')))
                | TOP_RIGHT \<Rightarrow>
                    (js_sub newX (rect_x rect'),
                     js_sub (js_add newY newHeight) (js_add (rect_y rect') (rect_height rect')))
                | OTHER_RESIZE \<Rightarrow> (Fin 0, Fin 0))
         in forEachPosition
              (\<lambda>position. position\<lparr>pos_x := js_sub (pos_x position) offsetX,
                                     pos_y := js_sub (pos_y position) offsetY\<rparr>)
              (fst s1, initRect (snd s1))))"

section \<open>Capture sessions and the full recomputation of the box\<close>

text \<open>A capture session: the constructor's stroke, then one \<open>addPosition\<close> per sample, each
  with the clock reading of its call.\<close>

definition capture :: "store \<Rightarrow> (int \<times> ref) list \<Rightarrow> FreeDraw \<Rightarrow> FreeDraw" where
  "capture h samples this = foldl (\<lambda>this (now, position). addPosition h now position this) this samples"

text \<open>The speed \<open>addPosition\<close> computes for a sample that is not the first: the result of
  \<open>_computedSpeed\<close> on the last recorded position and the new one.\<close>

definition sampleSpeed :: "store \<Rightarrow> int \<Rightarrow> ref \<Rightarrow> FreeDraw \<Rightarrow> number" where
  "sampleSpeed h now r this = fst (computedSpeed now (h (last (positions this))) (h r) this)"

text \<open>The box \<open>calculateRect\<close> stores, as a function of the box it reads and the
  position: the min/max union step on its own.\<close>

definition unionRect :: "FreeDrawRect \<Rightarrow> MousePosition \<Rightarrow> FreeDrawRect" where
  "unionRect b p =
     (let minX1 = (if js_lt (pos_x p) (minX b) then pos_x p else minX b);
          maxX1 = (if js_gt (pos_x p) (maxX b) then pos_x p else maxX b);
          minY1 = (if js_lt (pos_y p) (minY b) then pos_y p else minY b);
          maxY1 = (if js_gt (pos_y p) (maxY b) then pos_y p else maxY b)
      in \<lparr>rect_width = js_sub maxX1 minX1, rect_height = js_sub maxY1 minY1,
          rect_x = minX1, rect_y = minY1,
          minX = minX1, maxX = maxX1, minY = minY1, maxY = maxY1\<rparr>)"

text \<open>The full recomputation the specification describes: \<open>initRect\<close>, then
  \<open>calculateRect\<close> on every current position, in order.\<close>

definition recomputeRect :: "store \<Rightarrow> FreeDraw \<Rightarrow> FreeDraw" where
  "recomputeRect h instance = foldl calculateRect (initRect instance) (map h (positions instance))"

text \<open>The box of a stroke is up to date: it is what the full recomputation gives.\<close>

definition boxed :: "store \<Rightarrow> FreeDraw \<Rightarrow> bool" where
  "boxed h instance = (rect instance = rect (recomputeRect h instance))"

text \<open>Both coordinates are finite numbers.\<close>

definition finite_position :: "MousePosition \<Rightarrow> bool" where
  "finite_position p = (is_finite (pos_x p) \<and> is_finite (pos_y p))"


text \<open>The least and the greatest element of a list of numbers, by the comparison \<open><=\<close>
  of the program.\<close>

definition js_least :: "number \<Rightarrow> number list \<Rightarrow> bool" where
  "js_least m vs = (m \<in> set vs \<and> (\<forall>v \<in> set vs. js_le m v))"

definition js_greatest :: "number \<Rightarrow> number list \<Rightarrow> bool" where
  "js_greatest m vs = (m \<in> set vs \<and> (\<forall>v \<in> set vs. js_le v m))"

text \<open>A position moved by \<open>(dx, dy)\<close>: the body of the \<open>forEach\<close> of \<open>moveFreeDraw\<close>.\<close>

definition shift_position :: "number \<Rightarrow> number \<Rightarrow> MousePosition \<Rightarrow> MousePosition" where
  "shift_position dx dy p = p\<lparr>pos_x := js_add (pos_x p) dx, pos_y := js_add (pos_y p) dy\<rparr>"

text \<open>The store after every object of \<open>S\<close> was moved by \<open>(dx, dy)\<close>.\<close>

definition shift_store :: "ref set \<Rightarrow> number \<Rightarrow> number \<Rightarrow> store \<Rightarrow> store" where
  "shift_store S dx dy h =
     (\<lambda>r. if r \<in> S then (h r)\<lparr>pos_x := js_add (pos_x (h r)) dx,
                                   pos_y := js_add (pos_y (h r)) dy\<rparr>
          else h r)"

section \<open>The width formulas as the specification words them\<close>

text \<open>The raw width from a finite speed \<open>s\<close> for a stroke of maximal width \<open>W\<close>, with the
  bounds 10 and 0.5 written out.\<close>

definition spec_rawWidth :: "number \<Rightarrow> real \<Rightarrow> number" where
  "spec_rawWidth W s =
     (if 10 \<le> s then js_div W (Fin 2)
      else if s \<le> 1 / 2 then W
      else js_sub W (js_mul (Fin (s / 10)) W))"

text \<open>The smoothing step: one third of the raw width and two thirds of the last width.\<close>

definition spec_smoothedWidth :: "number \<Rightarrow> number \<Rightarrow> number" where
  "spec_smoothedWidth pre lastWidth =
     js_add (js_mul pre (Fin (1 / 3))) (js_mul lastWidth (Fin (2 / 3)))"

section \<open>Concrete strokes\<close>

text \<open>A store whose objects all sit at the origin, and one whose object \<open>r\<close> sits at
  \<open>(10 r, 0)\<close>.\<close>

definition origin_store :: store where
  "origin_store = (\<lambda>r. \<lparr>pos_x = Fin 0, pos_y = Fin 0\<rparr>)"

definition line_store :: store where
  "line_store = (\<lambda>r. \<lparr>pos_x = Fin (10 * real r), pos_y = Fin 0\<rparr>)"

text \<open>Two samples at the origin, recorded at 1000 ms and 1016 ms.\<close>

definition c1_stroke :: FreeDraw where
  "c1_stroke = capture origin_store [(1000, 0), (1016, 1)] (new_FreeDraw ''#000000'' (Fin 10) (Fin 0))"

text \<open>A stroke fresh from the constructor.\<close>

definition empty_stroke :: FreeDraw where
  "empty_stroke = new_FreeDraw ''#000000'' (Fin 10) (Fin 0)"

text \<open>The scenario of the specification: \<open>(0, 0)\<close> at 0 ms, \<open>(10, 0)\<close> at 100 ms.\<close>

definition line_stroke :: FreeDraw where
  "line_stroke = capture line_store [(0, 0), (100, 1)] (new_FreeDraw ''#000000'' (Fin 10) (Fin 0))"



text \<open>A stroke that was handed the same object twice.\<close>

definition aliased_stroke :: FreeDraw where
  "aliased_stroke = capture origin_store [(0, 7), (100, 7)] empty_stroke"

section \<open>Facts about numbers\<close>

lemma js_add_NaN [simp]: "js_add a NaN = NaN"
  by (cases a) simp_all

lemma js_mul_NaN [simp]: "js_mul a NaN = NaN"
  by (cases a) simp_all

lemma js_div_NaN [simp]: "js_div a NaN = NaN"
  by (cases a) simp_all

lemma js_sub_NaN [simp]: "js_sub a NaN = NaN" "js_sub NaN a = NaN"
  by (simp_all add: js_sub_def)

lemma js_le_NaN [simp]: "js_le a NaN = False"
  by (cases a) simp_all

lemma js_lt_NaN [simp]: "js_lt a NaN = False"
  by (cases a) simp_all

lemma is_finite_iff: "is_finite a \<longleftrightarrow> (\<exists>r. a = Fin r)"
  by (cases a) simp_all



text \<open>
  On numbers other than \<open>NaN\<close> the comparison \<open><=\<close> is a total order, with \<open>-Infinity\<close>
  least and \<open>Infinity\<close> greatest.
\<close>

lemma js_le_refl: "a \<noteq> NaN \<Longrightarrow> js_le a a"
  by (cases a) simp_all

lemma js_le_trans: "js_le a b \<Longrightarrow> js_le b c \<Longrightarrow> js_le a c"
  by (cases a; cases b; cases c) simp_all

lemma js_lt_imp_le: "js_lt a b \<Longrightarrow> js_le a b"
  by (cases a; cases b) simp_all

lemma not_js_lt_imp_le: "a \<noteq> NaN \<Longrightarrow> b \<noteq> NaN \<Longrightarrow> \<not> js_lt a b \<Longrightarrow> js_le b a"
  by (cases a; cases b) simp_all

lemma js_le_PInf: "a \<noteq> NaN \<Longrightarrow> js_le PInf a \<Longrightarrow> a = PInf"
  by (cases a) simp_all

lemma js_le_NInf: "a \<noteq> NaN \<Longrightarrow> js_le a NInf \<Longrightarrow> a = NInf"
  by (cases a) simp_all

section \<open>What \<open>addPosition\<close> does\<close>

text \<open>
  \<open>calculateRect\<close> writes the box and nothing else.
\<close>

lemma positions_calculateRect: "positions (calculateRect instance p) = positions instance"
  by (simp add: calculateRect_def Let_def)

lemma lineWidths_calculateRect: "lineWidths (calculateRect instance p) = lineWidths instance"
  by (simp add: calculateRect_def Let_def)

lemma lastLineWidth_calculateRect [simp]:
  "lastLineWidth (calculateRect this p) = lastLineWidth this"
  by (simp add: calculateRect_def Let_def)

lemma lastMoveTime_calculateRect [simp]:
  "lastMoveTime (calculateRect this p) = lastMoveTime this"
  by (simp add: calculateRect_def Let_def)

lemma consts_calculateRect [simp]:
  "maxWidth (calculateRect this p) = maxWidth this"
  "minWidth (calculateRect this p) = minWidth this"
  "maxSpeed (calculateRect this p) = maxSpeed this"
  "minSpeed (calculateRect this p) = minSpeed this"
  by (simp_all add: calculateRect_def Let_def)

lemma rawLineWidth_calculateRect [simp]:
  "rawLineWidth (calculateRect this p) speed = rawLineWidth this speed"
  by (simp add: rawLineWidth_def calculateRect_def Let_def)

lemma rawLineWidth_frame [simp]:
  "rawLineWidth (this\<lparr>positions := ps\<rparr>) speed = rawLineWidth this speed"
  "rawLineWidth (this\<lparr>lastMoveTime := t\<rparr>) speed = rawLineWidth this speed"
  by (simp_all add: rawLineWidth_def)

lemma calculateRect_unionRect: "calculateRect i p = i\<lparr>rect := unionRect (rect i) p\<rparr>"
  by (simp add: calculateRect_def unionRect_def Let_def)

text \<open>
  \<open>_computedLineWidth\<close> returns the smoothed width and stores it as the last width.
\<close>

lemma computedLineWidth_eq:
  "computedLineWidth speed this =
     (spec_smoothedWidth (rawLineWidth this speed) (lastLineWidth this),
      this\<lparr>lastLineWidth := spec_smoothedWidth (rawLineWidth this speed) (lastLineWidth this)\<rparr>)"
  by (simp add: computedLineWidth_def spec_smoothedWidth_def Let_def)

text \<open>
  The first sample of a stroke is pushed and folded into the box, and nothing else happens;
  every later sample also sets \<open>lastMoveTime\<close> to the clock reading, and appends and
  stores the smoothed width of its speed.
\<close>

lemma addPosition_first:
  "positions this = [] \<Longrightarrow>
   addPosition h now r this = calculateRect (this\<lparr>positions := [r]\<rparr>) (h r)"
  by (simp add: addPosition_def Let_def positions_calculateRect)

lemma addPosition_next:
  assumes "positions this \<noteq> []"
  shows "addPosition h now r this =
     (calculateRect (this\<lparr>positions := positions this @ [r]\<rparr>) (h r))
       \<lparr>lastMoveTime := Fin (real_of_int now),
        lastLineWidth := spec_smoothedWidth (rawLineWidth this (sampleSpeed h now r this))
                           (lastLineWidth this),
        lineWidths := lineWidths this @
          [spec_smoothedWidth (rawLineWidth this (sampleSpeed h now r this)) (lastLineWidth this)]\<rparr>"
proof -
  obtain ys y where ps: "positions this = ys @ [y]"
    using assms by (cases "positions this" rule: rev_cases) auto
  show ?thesis
    by (simp add: addPosition_def Let_def positions_calculateRect lineWidths_calculateRect
        computedLineWidth_eq sampleSpeed_def computedSpeed_def ps nth_append
        split: prod.splits)
qed

lemma positions_addPosition:
  "positions (addPosition h now r this) = positions this @ [r]"
  by (simp add: addPosition_def Let_def computedSpeed_def computedLineWidth_def
      positions_calculateRect split: prod.splits)

lemma length_lineWidths_addPosition:
  "length (lineWidths (addPosition h now r this))
     = (if positions this = [] then length (lineWidths this) else Suc (length (lineWidths this)))"
  by (cases "positions this" rule: rev_cases)
     (simp_all add: addPosition_def Let_def computedSpeed_def computedLineWidth_def
        positions_calculateRect lineWidths_calculateRect split: prod.splits)

lemma consts_addPosition [simp]:
  "maxWidth (addPosition h now r this) = maxWidth this"
  "minWidth (addPosition h now r this) = minWidth this"
  "maxSpeed (addPosition h now r this) = maxSpeed this"
  "minSpeed (addPosition h now r this) = minSpeed this"
  by (cases "positions this = []"; simp add: addPosition_first addPosition_next)+

lemma rect_addPosition: "rect (addPosition h now r i) = unionRect (rect i) (h r)"
  by (cases "positions i = []")
     (simp_all add: addPosition_first addPosition_next calculateRect_unionRect)

lemma lastMoveTime_addPosition_next:
  "positions this \<noteq> [] \<Longrightarrow> lastMoveTime (addPosition h now r this) = Fin (real_of_int now)"
  by (simp add: addPosition_next)

lemma positions_capture:
  "positions (capture h samples this) = positions this @ map snd samples"
  unfolding capture_def
  by (induction samples arbitrary: this) (simp_all add: positions_addPosition split: prod.splits)

lemma consts_capture [simp]:
  "maxWidth (capture h samples this) = maxWidth this"
  "minWidth (capture h samples this) = minWidth this"
  "maxSpeed (capture h samples this) = maxSpeed this"
  "minSpeed (capture h samples this) = minSpeed this"
  unfolding capture_def
  by (induction samples arbitrary: this; simp split: prod.splits)+

lemma length_lineWidths_capture:
  "length (lineWidths this) = max 1 (length (positions this)) \<Longrightarrow>
   length (lineWidths (capture h samples this)) = max 1 (length (positions (capture h samples this)))"
  unfolding capture_def
proof (induction samples arbitrary: this)
  case Nil
  then show ?case by simp
next
  case (Cons a samples)
  obtain now r where a: "a = (now, r)" by (cases a)
  have "length (lineWidths (addPosition h now r this))
          = max 1 (length (positions (addPosition h now r this)))"
    using Cons.prems
    by (cases "positions this") (simp_all add: length_lineWidths_addPosition positions_addPosition)
  from Cons.IH [OF this] show ?case by (simp add: a)
qed

lemmas eval_defs = capture_def addPosition_def Let_def computedSpeed_def computedLineWidth_def
  rawLineWidth_def calculateRect_def new_FreeDraw_def getDistance_def js_sub_def js_ge_def
  js_gt_def emptyRect_def sampleSpeed_def spec_smoothedWidth_def spec_rawWidth_def

section \<open>The lengths of \<open>positions\<close> and \<open>lineWidths\<close>\<close>

text \<open>
  C10: right after construction \<open>lineWidths\<close> is \<open>[0]\<close> and \<open>positions\<close> is empty, so
  there is one width more than there are positions; after the first \<open>addPosition\<close> call
  the two lengths are equal (both are 1).
\<close>

theorem C10_lengths_at_construction:
  "lineWidths (new_FreeDraw c w l) = [Fin 0]
   \<and> positions (new_FreeDraw c w l) = []
   \<and> length (lineWidths (new_FreeDraw c w l)) = length (positions (new_FreeDraw c w l)) + 1
   \<and> length (lineWidths (new_FreeDraw c w l)) \<noteq> length (positions (new_FreeDraw c w l))
   \<and> length (lineWidths (addPosition h now r (new_FreeDraw c w l)))
       = length (positions (addPosition h now r (new_FreeDraw c w l)))"
  by (simp add: length_lineWidths_addPosition positions_addPosition) (simp add: new_FreeDraw_def)

text \<open>
  C4: in a capture session that starts from the constructor, right after every
  \<open>addPosition\<close> call (whatever calls came before it) \<open>lineWidths\<close> and \<open>positions\<close>
  have the same length.
\<close>

theorem C4_lengths_after_addPosition:
  "length (lineWidths (addPosition h now r (capture h samples (new_FreeDraw c w l))))
     = length (positions (addPosition h now r (capture h samples (new_FreeDraw c w l))))"
proof -
  have "length (lineWidths (capture h samples (new_FreeDraw c w l)))
          = max 1 (length (positions (capture h samples (new_FreeDraw c w l))))"
    by (rule length_lineWidths_capture) (simp add: new_FreeDraw_def)
  then show ?thesis
    by (cases "positions (capture h samples (new_FreeDraw c w l))")
       (simp_all add: length_lineWidths_addPosition positions_addPosition)
qed

section \<open>Line widths\<close>

lemma rawLineWidth_NaN: "rawLineWidth this NaN = NaN"
  by (simp add: rawLineWidth_def js_ge_def)

lemma rawLineWidth_finite:
  "maxSpeed this = Fin 10 \<Longrightarrow> minSpeed this = Fin (1 / 2) \<Longrightarrow>
   minWidth this = js_div (maxWidth this) (Fin 2) \<Longrightarrow>
   rawLineWidth this (Fin s) = spec_rawWidth (maxWidth this) s"
  by (simp add: rawLineWidth_def spec_rawWidth_def js_ge_def)

lemma rawLineWidth_capture:
  "rawLineWidth (capture h samples (new_FreeDraw c W l)) (Fin s) = spec_rawWidth W s"
proof -
  have "rawLineWidth (capture h samples (new_FreeDraw c W l)) (Fin s)
          = spec_rawWidth (maxWidth (capture h samples (new_FreeDraw c W l))) s"
    by (rule rawLineWidth_finite) (simp_all add: new_FreeDraw_def)
  then show ?thesis by (simp add: new_FreeDraw_def)
qed

text \<open>
  C2: for a stroke constructed with width \<open>W\<close>, at any point of its capture, and a finite
  speed \<open>s\<close>: \<open>maxWidth\<close> is \<open>W\<close> and \<open>minWidth\<close> is \<open>W / 2\<close>; the width before
  smoothing is \<open>W / 2\<close> if \<open>s >= 10\<close>, \<open>W\<close> if \<open>s <= 0.5\<close>, and \<open>W - (s / 10) * W\<close>
  otherwise; \<open>_computedLineWidth\<close> returns that width times \<open>1/3\<close> plus the last width
  times \<open>2/3\<close> and stores it as the last width; and when the speed of a sample that is
  not the first is \<open>s\<close>, this is the value \<open>addPosition\<close> appends to \<open>lineWidths\<close>.
\<close>

theorem C2_width_from_speed:
  "maxWidth (capture h samples (new_FreeDraw c W l)) = W
   \<and> minWidth (capture h samples (new_FreeDraw c W l)) = js_div W (Fin 2)
   \<and> rawLineWidth (capture h samples (new_FreeDraw c W l)) (Fin s) = spec_rawWidth W s
   \<and> computedLineWidth (Fin s) (capture h samples (new_FreeDraw c W l))
       = (spec_smoothedWidth (spec_rawWidth W s)
            (lastLineWidth (capture h samples (new_FreeDraw c W l))),
          (capture h samples (new_FreeDraw c W l))
            \<lparr>lastLineWidth := spec_smoothedWidth (spec_rawWidth W s)
               (lastLineWidth (capture h samples (new_FreeDraw c W l)))\<rparr>)
   \<and> (positions (capture h samples (new_FreeDraw c W l)) \<noteq> []
        \<and> sampleSpeed h now r (capture h samples (new_FreeDraw c W l)) = Fin s
      \<longrightarrow> lineWidths (addPosition h now r (capture h samples (new_FreeDraw c W l)))
            = lineWidths (capture h samples (new_FreeDraw c W l))
              @ [spec_smoothedWidth (spec_rawWidth W s)
                   (lastLineWidth (capture h samples (new_FreeDraw c W l)))]
        \<and> lastLineWidth (addPosition h now r (capture h samples (new_FreeDraw c W l)))
            = spec_smoothedWidth (spec_rawWidth W s)
                (lastLineWidth (capture h samples (new_FreeDraw c W l))))"
proof (intro conjI impI)
  show "maxWidth (capture h samples (new_FreeDraw c W l)) = W"
    by (simp add: new_FreeDraw_def)
  show "minWidth (capture h samples (new_FreeDraw c W l)) = js_div W (Fin 2)"
    by (simp add: new_FreeDraw_def)
  show "rawLineWidth (capture h samples (new_FreeDraw c W l)) (Fin s) = spec_rawWidth W s"
    by (rule rawLineWidth_capture)
  show "computedLineWidth (Fin s) (capture h samples (new_FreeDraw c W l))
       = (spec_smoothedWidth (spec_rawWidth W s)
            (lastLineWidth (capture h samples (new_FreeDraw c W l))),
          (capture h samples (new_FreeDraw c W l))
            \<lparr>lastLineWidth := spec_smoothedWidth (spec_rawWidth W s)
               (lastLineWidth (capture h samples (new_FreeDraw c W l)))\<rparr>)"
    by (simp only: computedLineWidth_eq rawLineWidth_capture)
next
  assume a: "positions (capture h samples (new_FreeDraw c W l)) \<noteq> []
        \<and> sampleSpeed h now r (capture h samples (new_FreeDraw c W l)) = Fin s"
  show "lineWidths (addPosition h now r (capture h samples (new_FreeDraw c W l)))
            = lineWidths (capture h samples (new_FreeDraw c W l))
              @ [spec_smoothedWidth (spec_rawWidth W s)
                   (lastLineWidth (capture h samples (new_FreeDraw c W l)))]"
    using a by (simp add: addPosition_next rawLineWidth_capture)
  show "lastLineWidth (addPosition h now r (capture h samples (new_FreeDraw c W l)))
            = spec_smoothedWidth (spec_rawWidth W s)
                (lastLineWidth (capture h samples (new_FreeDraw c W l)))"
    using a by (simp add: addPosition_next rawLineWidth_capture)
qed

text \<open>
  The scenario of the specification: a stroke of width 10, \<open>(0, 0)\<close> at 0 ms and
  \<open>(10, 0)\<close> at 100 ms. The speed is 0.1 and the widths are \<open>[0, 10]\<close>.
\<close>

theorem C2_width_from_speed_witness:
  "positions (capture line_store [(0, 0)] (new_FreeDraw ''#000000'' (Fin 10) (Fin 0))) \<noteq> []
   \<and> sampleSpeed line_store 100 1 (capture line_store [(0, 0)] (new_FreeDraw ''#000000'' (Fin 10) (Fin 0)))
       = Fin (1 / 10)
   \<and> lineWidths (addPosition line_store 100 1
        (capture line_store [(0, 0)] (new_FreeDraw ''#000000'' (Fin 10) (Fin 0))))
       = [Fin 0, Fin 10]
   \<and> lastLineWidth (addPosition line_store 100 1
        (capture line_store [(0, 0)] (new_FreeDraw ''#000000'' (Fin 10) (Fin 0)))) = Fin 10"
proof -
  have p: "positions (capture line_store [(0, 0)] (new_FreeDraw ''#000000'' (Fin 10) (Fin 0))) \<noteq> []"
    by (simp add: positions_capture)
  have s: "sampleSpeed line_store 100 1
             (capture line_store [(0, 0)] (new_FreeDraw ''#000000'' (Fin 10) (Fin 0))) = Fin (1 / 10)"
    by (simp add: eval_defs line_store_def)
  have w: "lineWidths (capture line_store [(0, 0)] (new_FreeDraw ''#000000'' (Fin 10) (Fin 0))) = [Fin 0]"
    by (simp add: eval_defs line_store_def)
  have l: "lastLineWidth (capture line_store [(0, 0)] (new_FreeDraw ''#000000'' (Fin 10) (Fin 0))) = Fin 10"
    by (simp add: eval_defs line_store_def)
  have v: "spec_smoothedWidth (spec_rawWidth (Fin 10) (1 / 10)) (Fin 10) = Fin 10"
    by (simp add: spec_smoothedWidth_def spec_rawWidth_def)
  from C2_width_from_speed [of line_store "[(0, 0)]" "''#000000''" "Fin 10" "Fin 0" "1 / 10" 100 1]
  show ?thesis using p s by (simp only: w l v append.simps simp_thms)
qed

text \<open>
  C9: for a stroke of positive width \<open>W\<close>, the speed 9 lies strictly between \<open>minSpeed\<close>
  and \<open>maxSpeed\<close>, and its width before smoothing is \<open>W / 10\<close>, strictly below
  \<open>minWidth = W / 2\<close>. At \<open>maxSpeed\<close> itself the width is \<open>W / 2\<close>, while every left
  neighbourhood of \<open>maxSpeed\<close> holds speeds whose width is below any positive bound: the
  map from speed to width is not bounded below by \<open>minWidth\<close> and jumps at \<open>maxSpeed\<close> from
  near 0 up to \<open>minWidth\<close>.
\<close>

theorem C9_interpolation_below_minWidth:
  assumes "0 < W"
  shows "js_lt (minSpeed (capture h samples (new_FreeDraw c (Fin W) l))) (Fin 9)
     \<and> js_lt (Fin 9) (maxSpeed (capture h samples (new_FreeDraw c (Fin W) l)))
     \<and> minWidth (capture h samples (new_FreeDraw c (Fin W) l)) = Fin (W / 2)
     \<and> rawLineWidth (capture h samples (new_FreeDraw c (Fin W) l)) (Fin 9) = Fin (W / 10)
     \<and> js_lt (rawLineWidth (capture h samples (new_FreeDraw c (Fin W) l)) (Fin 9))
          (minWidth (capture h samples (new_FreeDraw c (Fin W) l)))
     \<and> rawLineWidth (capture h samples (new_FreeDraw c (Fin W) l))
          (maxSpeed (capture h samples (new_FreeDraw c (Fin W) l))) = Fin (W / 2)
     \<and> (\<forall>d > 0. \<forall>e > 0. \<exists>s. 10 - d < s \<and> s < 10
           \<and> js_lt (rawLineWidth (capture h samples (new_FreeDraw c (Fin W) l)) (Fin s))
                (Fin e))"
proof (intro conjI allI impI)
  show "js_lt (minSpeed (capture h samples (new_FreeDraw c (Fin W) l))) (Fin 9)"
    by (simp add: new_FreeDraw_def)
  show "js_lt (Fin 9) (maxSpeed (capture h samples (new_FreeDraw c (Fin W) l)))"
    by (simp add: new_FreeDraw_def)
  show m: "minWidth (capture h samples (new_FreeDraw c (Fin W) l)) = Fin (W / 2)"
    by (simp add: new_FreeDraw_def)
  show r9: "rawLineWidth (capture h samples (new_FreeDraw c (Fin W) l)) (Fin 9) = Fin (W / 10)"
    by (simp add: rawLineWidth_capture spec_rawWidth_def js_sub_def)
  show "js_lt (rawLineWidth (capture h samples (new_FreeDraw c (Fin W) l)) (Fin 9))
          (minWidth (capture h samples (new_FreeDraw c (Fin W) l)))"
    using assms unfolding r9 m by simp
  show "rawLineWidth (capture h samples (new_FreeDraw c (Fin W) l))
          (maxSpeed (capture h samples (new_FreeDraw c (Fin W) l))) = Fin (W / 2)"
  proof -
    have "maxSpeed (capture h samples (new_FreeDraw c (Fin W) l)) = Fin 10"
      by (simp add: new_FreeDraw_def)
    then show ?thesis
      by (simp add: rawLineWidth_capture spec_rawWidth_def)
  qed
next
  fix d e :: real
  assume d: "0 < d" and e: "0 < e"
  define s where "s = max (10 - d / 2) (max (19 / 2) (10 - 5 * e / W))"
  have s1: "10 - d < s" and s3: "9 < s" and s4: "10 - 5 * e / W \<le> s"
    using d by (simp_all add: s_def max_def)
  have "0 < 5 * e / W" using e assms by simp
  then have s2: "s < 10" using d by (simp add: s_def)
  have "rawLineWidth (capture h samples (new_FreeDraw c (Fin W) l)) (Fin s)
          = Fin (W - s / 10 * W)"
    using s2 s3 by (simp add: rawLineWidth_capture spec_rawWidth_def js_sub_def)
  moreover have "W - s / 10 * W < e"
  proof -
    have "10 - s \<le> 5 * e / W" using s4 by simp
    then have "W * (10 - s) \<le> W * (5 * e / W)"
      using assms by (intro mult_left_mono) simp_all
    then have "W * (10 - s) \<le> 5 * e" using assms by simp
    moreover have "W - s / 10 * W = W * (10 - s) / 10" by (simp add: algebra_simps)
    ultimately show ?thesis using e by simp
  qed
  ultimately show "\<exists>s. 10 - d < s \<and> s < 10
           \<and> js_lt (rawLineWidth (capture h samples (new_FreeDraw c (Fin W) l)) (Fin s))
                (Fin e)"
    using s1 s2 by (intro exI [of _ s]) simp
qed

theorem C9_interpolation_below_minWidth_witness:
  "(0::real) < 10
   \<and> rawLineWidth (capture origin_store [] (new_FreeDraw ''#000000'' (Fin 10) (Fin 0))) (Fin 9) = Fin 1
   \<and> minWidth (capture origin_store [] (new_FreeDraw ''#000000'' (Fin 10) (Fin 0))) = Fin 5
   \<and> rawLineWidth (capture origin_store [] (new_FreeDraw ''#000000'' (Fin 10) (Fin 0)))
        (maxSpeed (capture origin_store [] (new_FreeDraw ''#000000'' (Fin 10) (Fin 0)))) = Fin 5"
proof -
  have h: "(0::real) < 10" by simp
  from C9_interpolation_below_minWidth [OF h, of origin_store "[]" "''#000000''" "Fin 0"]
  show ?thesis by simp
qed

text \<open>
  C8: the first \<open>addPosition\<close> call of a stroke does not call \<open>_computedSpeed\<close>, the
  only place that writes \<open>lastMoveTime\<close>: after the first sample \<open>lastMoveTime\<close> is still
  the constructor's 0, whatever the clock says (here 1000 ms).
\<close>

theorem C8_first_sample_keeps_lastMoveTime:
  "lastMoveTime (new_FreeDraw c w l) = Fin 0
   \<and> lastMoveTime (addPosition h now r (new_FreeDraw c w l)) = Fin 0
   \<and> lastMoveTime (addPosition h 1000 r (new_FreeDraw c w l)) \<noteq> Fin 1000"
  by (simp add: addPosition_first new_FreeDraw_def)

text \<open>
  C1, as the specification states it, fails. Three samples at the origin, at 1000 ms,
  1016 ms and 1016 ms: the third has distance 0 and elapsed time 0 to the second, its speed is
  \<open>NaN\<close>, the width before smoothing is \<open>NaN\<close> and not \<open>minWidth = 5\<close>, and \<open>NaN\<close> is
  appended to \<open>lineWidths\<close>.
\<close>

theorem C1_NaN_appended:
  "getDistance (origin_store 1) (origin_store 2) = Fin 0
   \<and> js_sub (Fin (real_of_int 1016)) (lastMoveTime c1_stroke) = Fin 0
   \<and> sampleSpeed origin_store 1016 2 c1_stroke = NaN
   \<and> rawLineWidth c1_stroke (sampleSpeed origin_store 1016 2 c1_stroke) = NaN
   \<and> minWidth c1_stroke = Fin 5
   \<and> rawLineWidth c1_stroke (sampleSpeed origin_store 1016 2 c1_stroke) \<noteq> minWidth c1_stroke
   \<and> lineWidths c1_stroke = [Fin 0, Fin 10]
   \<and> lineWidths (addPosition origin_store 1016 2 c1_stroke) = [Fin 0, Fin 10, NaN]"
  by (simp add: c1_stroke_def eval_defs origin_store_def)

text \<open>
  C1, amended: when a sample that is not the first has distance 0 to the last position and
  the clock has not advanced since \<open>lastMoveTime\<close>, its speed is \<open>NaN\<close>; neither comparison
  of \<open>_computedLineWidth\<close> holds for it, the interpolation branch is taken, and the width
  before smoothing, the width appended to \<open>lineWidths\<close> and the new \<open>lastLineWidth\<close> are
  all \<open>NaN\<close>.
\<close>

theorem C1_indeterminate_speed:
  assumes "positions this \<noteq> []"
    and "getDistance (h (last (positions this))) (h r) = Fin 0"
    and "lastMoveTime this = Fin (real_of_int now)"
  shows "sampleSpeed h now r this = NaN
     \<and> rawLineWidth this (sampleSpeed h now r this) = NaN
     \<and> lineWidths (addPosition h now r this) = lineWidths this @ [NaN]
     \<and> lastLineWidth (addPosition h now r this) = NaN"
proof -
  have sp: "sampleSpeed h now r this = NaN"
    using assms(2,3) by (simp add: sampleSpeed_def computedSpeed_def Let_def js_sub_def)
  have sm: "spec_smoothedWidth NaN (lastLineWidth this) = NaN"
    by (simp add: spec_smoothedWidth_def)
  show ?thesis
    using assms(1) by (simp add: addPosition_next sp rawLineWidth_NaN sm)
qed

theorem C1_indeterminate_speed_witness:
  "positions c1_stroke \<noteq> []
   \<and> getDistance (origin_store (last (positions c1_stroke))) (origin_store 2) = Fin 0
   \<and> lastMoveTime c1_stroke = Fin (real_of_int 1016)
   \<and> lineWidths (addPosition origin_store 1016 2 c1_stroke) = lineWidths c1_stroke @ [NaN]
   \<and> lastLineWidth (addPosition origin_store 1016 2 c1_stroke) = NaN"
proof -
  have p: "positions c1_stroke \<noteq> []"
    by (simp add: c1_stroke_def positions_capture)
  have d: "getDistance (origin_store (last (positions c1_stroke))) (origin_store 2) = Fin 0"
    by (simp add: getDistance_def origin_store_def js_sub_def)
  have t: "lastMoveTime c1_stroke = Fin (real_of_int 1016)"
    by (simp add: c1_stroke_def eval_defs origin_store_def)
  from C1_indeterminate_speed [OF p d t] show ?thesis using p d t by simp
qed

section \<open>The bounding box\<close>

lemma foldl_calculateRect:
  "foldl calculateRect i ps = i\<lparr>rect := foldl unionRect (rect i) ps\<rparr>"
  by (induction ps arbitrary: i) (simp_all add: calculateRect_unionRect)

lemma recomputeRect_eq:
  "recomputeRect h i = i\<lparr>rect := foldl unionRect emptyRect (map h (positions i))\<rparr>"
  by (simp add: recomputeRect_def foldl_calculateRect initRect_def)

lemma recomputeRect_rect_update [simp]: "recomputeRect h (i\<lparr>rect := b\<rparr>) = recomputeRect h i"
  by (simp add: recomputeRect_eq)

lemma positions_recomputeRect [simp]: "positions (recomputeRect h i) = positions i"
  by (simp add: recomputeRect_eq)

lemma recomputeRect_recomputeRect [simp]:
  "recomputeRect h (recomputeRect h' i) = recomputeRect h i"
  by (simp add: recomputeRect_eq)

lemma boxed_eq: "boxed h i \<longleftrightarrow> rect i = foldl unionRect emptyRect (map h (positions i))"
  by (simp add: boxed_def recomputeRect_eq)

lemma boxed_recompute: "boxed h i \<Longrightarrow> recomputeRect h i = i"
  by (simp add: boxed_eq recomputeRect_eq)

text \<open>
  The box is up to date after the constructor and stays so through \<open>addPosition\<close>.
\<close>

lemma boxed_new: "boxed h (new_FreeDraw c w l)"
  by (simp add: boxed_eq new_FreeDraw_def)

lemma boxed_addPosition: "boxed h i \<Longrightarrow> boxed h (addPosition h now r i)"
  by (simp add: boxed_eq rect_addPosition positions_addPosition)

lemma boxed_capture: "boxed h i \<Longrightarrow> boxed h (capture h samples i)"
  unfolding capture_def
  by (induction samples arbitrary: i) (simp_all add: boxed_addPosition split: prod.splits)

subsection \<open>The extents are the least and greatest coordinates\<close>

lemma foldl_min_bounds:
  "\<forall>v \<in> set xs. v \<noteq> NaN \<Longrightarrow> m \<noteq> NaN \<Longrightarrow>
   (foldl (\<lambda>m v. if js_lt v m then v else m) m xs = m
      \<or> foldl (\<lambda>m v. if js_lt v m then v else m) m xs \<in> set xs)
   \<and> js_le (foldl (\<lambda>m v. if js_lt v m then v else m) m xs) m
   \<and> (\<forall>v \<in> set xs. js_le (foldl (\<lambda>m v. if js_lt v m then v else m) m xs) v)"
proof (induction xs arbitrary: m)
  case Nil
  then show ?case by (simp add: js_le_refl)
next
  case (Cons x xs)
  let ?m' = "if js_lt x m then x else m"
  have x: "x \<noteq> NaN" and xs: "\<forall>v \<in> set xs. v \<noteq> NaN" using Cons.prems by simp_all
  have m': "?m' \<noteq> NaN" using x Cons.prems(2) by simp
  have le_m: "js_le ?m' m" using Cons.prems(2) by (simp add: js_lt_imp_le js_le_refl)
  have le_x: "js_le ?m' x" using x Cons.prems(2) by (simp add: not_js_lt_imp_le js_le_refl)
  note IH = Cons.IH [OF xs m']
  show ?case
    using IH le_m le_x by (auto intro: js_le_trans)
qed

lemma foldl_max_bounds:
  "\<forall>v \<in> set xs. v \<noteq> NaN \<Longrightarrow> m \<noteq> NaN \<Longrightarrow>
   (foldl (\<lambda>m v. if js_gt v m then v else m) m xs = m
      \<or> foldl (\<lambda>m v. if js_gt v m then v else m) m xs \<in> set xs)
   \<and> js_le m (foldl (\<lambda>m v. if js_gt v m then v else m) m xs)
   \<and> (\<forall>v \<in> set xs. js_le v (foldl (\<lambda>m v. if js_gt v m then v else m) m xs))"
proof (induction xs arbitrary: m)
  case Nil
  then show ?case by (simp add: js_le_refl)
next
  case (Cons x xs)
  let ?m' = "if js_gt x m then x else m"
  have x: "x \<noteq> NaN" and xs: "\<forall>v \<in> set xs. v \<noteq> NaN" using Cons.prems by simp_all
  have m': "?m' \<noteq> NaN" using x Cons.prems(2) by simp
  have le_m: "js_le m ?m'" using Cons.prems(2) by (simp add: js_gt_def js_lt_imp_le js_le_refl)
  have le_x: "js_le x ?m'" using x Cons.prems(2) by (simp add: js_gt_def not_js_lt_imp_le js_le_refl)
  note IH = Cons.IH [OF xs m']
  show ?case
    using IH le_m le_x by (auto intro: js_le_trans)
qed

lemma foldl_min_least:
  assumes "xs \<noteq> []" "\<forall>v \<in> set xs. v \<noteq> NaN"
  shows "js_least (foldl (\<lambda>m v. if js_lt v m then v else m) PInf xs) xs"
proof -
  let ?r = "foldl (\<lambda>m v. if js_lt v m then v else m) PInf xs"
  have b: "(?r = PInf \<or> ?r \<in> set xs) \<and> (\<forall>v \<in> set xs. js_le ?r v)"
    using foldl_min_bounds [OF assms(2), of PInf] by simp
  have "?r \<in> set xs"
  proof (cases "?r \<in> set xs")
    case False
    then have r: "?r = PInf" using b by blast
    obtain x where x: "x \<in> set xs" using assms(1) by (cases xs) auto
    then have "js_le PInf x" using b r by auto
    then have "x = PInf" using assms(2) x by (intro js_le_PInf) auto
    then show ?thesis using x r by simp
  qed simp
  then show ?thesis using b by (simp add: js_least_def)
qed

lemma foldl_max_greatest:
  assumes "xs \<noteq> []" "\<forall>v \<in> set xs. v \<noteq> NaN"
  shows "js_greatest (foldl (\<lambda>m v. if js_gt v m then v else m) NInf xs) xs"
proof -
  let ?r = "foldl (\<lambda>m v. if js_gt v m then v else m) NInf xs"
  have b: "(?r = NInf \<or> ?r \<in> set xs) \<and> (\<forall>v \<in> set xs. js_le v ?r)"
    using foldl_max_bounds [OF assms(2), of NInf] by simp
  have "?r \<in> set xs"
  proof (cases "?r \<in> set xs")
    case False
    then have r: "?r = NInf" using b by blast
    obtain x where x: "x \<in> set xs" using assms(1) by (cases xs) auto
    then have "js_le x NInf" using b r by auto
    then have "x = NInf" using assms(2) x by (intro js_le_NInf) auto
    then show ?thesis using x r by simp
  qed simp
  then show ?thesis using b by (simp add: js_greatest_def)
qed

lemma extents_unionRect [simp]:
  "minX (unionRect b p) = (if js_lt (pos_x p) (minX b) then pos_x p else minX b)"
  "maxX (unionRect b p) = (if js_gt (pos_x p) (maxX b) then pos_x p else maxX b)"
  "minY (unionRect b p) = (if js_lt (pos_y p) (minY b) then pos_y p else minY b)"
  "maxY (unionRect b p) = (if js_gt (pos_y p) (maxY b) then pos_y p else maxY b)"
  by (simp_all add: unionRect_def Let_def)

lemma derived_unionRect:
  "rect_x (unionRect b p) = minX (unionRect b p)"
  "rect_y (unionRect b p) = minY (unionRect b p)"
  "rect_width (unionRect b p) = js_sub (maxX (unionRect b p)) (minX (unionRect b p))"
  "rect_height (unionRect b p) = js_sub (maxY (unionRect b p)) (minY (unionRect b p))"
  by (simp_all add: unionRect_def Let_def)

lemma extents_foldl_unionRect:
  "minX (foldl unionRect b ps) = foldl (\<lambda>m v. if js_lt v m then v else m) (minX b) (map pos_x ps)"
  "maxX (foldl unionRect b ps) = foldl (\<lambda>m v. if js_gt v m then v else m) (maxX b) (map pos_x ps)"
  "minY (foldl unionRect b ps) = foldl (\<lambda>m v. if js_lt v m then v else m) (minY b) (map pos_y ps)"
  "maxY (foldl unionRect b ps) = foldl (\<lambda>m v. if js_gt v m then v else m) (maxY b) (map pos_y ps)"
  by (induction ps arbitrary: b; simp)+

lemma derived_foldl_unionRect:
  assumes "ps \<noteq> []"
  shows "rect_x (foldl unionRect b ps) = minX (foldl unionRect b ps)"
    "rect_y (foldl unionRect b ps) = minY (foldl unionRect b ps)"
    "rect_width (foldl unionRect b ps)
       = js_sub (maxX (foldl unionRect b ps)) (minX (foldl unionRect b ps))"
    "rect_height (foldl unionRect b ps)
       = js_sub (maxY (foldl unionRect b ps)) (minY (foldl unionRect b ps))"
proof -
  obtain qs q where "ps = qs @ [q]" using assms by (cases ps rule: rev_cases) auto
  then show "rect_x (foldl unionRect b ps) = minX (foldl unionRect b ps)"
    "rect_y (foldl unionRect b ps) = minY (foldl unionRect b ps)"
    "rect_width (foldl unionRect b ps)
       = js_sub (maxX (foldl unionRect b ps)) (minX (foldl unionRect b ps))"
    "rect_height (foldl unionRect b ps)
       = js_sub (maxY (foldl unionRect b ps)) (minY (foldl unionRect b ps))"
    by (simp_all only: foldl_append foldl_Cons foldl_Nil derived_unionRect)
qed

text \<open>
  C3, as the specification states it, fails on a stroke with no position: the recomputed box
  has \<open>x = 0\<close> and \<open>width = 0\<close>, while \<open>minX\<close> is \<open>Infinity\<close> and \<open>maxX - minX\<close> is
  \<open>-Infinity\<close>; \<open>moveFreeDraw\<close> leaves such a stroke with this very box.
\<close>

theorem C3_empty_stroke_box:
  "rect_x (rect (recomputeRect origin_store empty_stroke)) = Fin 0
   \<and> minX (rect (recomputeRect origin_store empty_stroke)) = PInf
   \<and> rect_x (rect (recomputeRect origin_store empty_stroke))
       \<noteq> minX (rect (recomputeRect origin_store empty_stroke))
   \<and> rect_width (rect (recomputeRect origin_store empty_stroke)) = Fin 0
   \<and> js_sub (maxX (rect (recomputeRect origin_store empty_stroke)))
        (minX (rect (recomputeRect origin_store empty_stroke))) = NInf
   \<and> rect (snd (moveFreeDraw (origin_store, empty_stroke) (Fin 5) (Fin (- 3)))) = emptyRect"
  by (simp add: recomputeRect_eq empty_stroke_def new_FreeDraw_def emptyRect_def js_sub_def
      moveFreeDraw_def forEachPosition_def initRect_def)

text \<open>
  A coordinate that is \<open>NaN\<close> fails both comparisons of \<open>calculateRect\<close> and is never folded
  into the extents.
\<close>

lemma nan_never_folded:
  "pos_x p = NaN \<Longrightarrow> minX (rect (calculateRect i p)) = minX (rect i)
     \<and> maxX (rect (calculateRect i p)) = maxX (rect i)"
  by (simp add: calculateRect_def Let_def js_gt_def)

text \<open>
  With at least one position and no \<open>NaN\<close> coordinate, the extents of the recomputed box are
  the least and greatest coordinates, and the other four fields are derived from them.
\<close>

lemma recomputed_box_nonempty:
  assumes "positions i \<noteq> []"
    and "\<forall>r \<in> set (positions i). pos_x (h r) \<noteq> NaN \<and> pos_y (h r) \<noteq> NaN"
  shows "js_least (minX (rect (recomputeRect h i))) (map (\<lambda>r. pos_x (h r)) (positions i))
     \<and> js_greatest (maxX (rect (recomputeRect h i))) (map (\<lambda>r. pos_x (h r)) (positions i))
     \<and> js_least (minY (rect (recomputeRect h i))) (map (\<lambda>r. pos_y (h r)) (positions i))
     \<and> js_greatest (maxY (rect (recomputeRect h i))) (map (\<lambda>r. pos_y (h r)) (positions i))
     \<and> rect_x (rect (recomputeRect h i)) = minX (rect (recomputeRect h i))
     \<and> rect_y (rect (recomputeRect h i)) = minY (rect (recomputeRect h i))
     \<and> rect_width (rect (recomputeRect h i))
         = js_sub (maxX (rect (recomputeRect h i))) (minX (rect (recomputeRect h i)))
     \<and> rect_height (rect (recomputeRect h i))
         = js_sub (maxY (rect (recomputeRect h i))) (minY (rect (recomputeRect h i)))"
proof -
  let ?ps = "map h (positions i)"
  have ne: "?ps \<noteq> []" using assms(1) by simp
  have r: "rect (recomputeRect h i) = foldl unionRect emptyRect ?ps"
    by (simp add: recomputeRect_eq)
  have mx: "map pos_x ?ps = map (\<lambda>r. pos_x (h r)) (positions i)"
    and my: "map pos_y ?ps = map (\<lambda>r. pos_y (h r)) (positions i)"
    by simp_all
  have nx: "map (\<lambda>r. pos_x (h r)) (positions i) \<noteq> []"
    and ny: "map (\<lambda>r. pos_y (h r)) (positions i) \<noteq> []"
    using assms(1) by simp_all
  have vx: "\<forall>v \<in> set (map (\<lambda>r. pos_x (h r)) (positions i)). v \<noteq> NaN"
    and vy: "\<forall>v \<in> set (map (\<lambda>r. pos_y (h r)) (positions i)). v \<noteq> NaN"
    using assms(2) by auto
  have e: "minX emptyRect = PInf" "maxX emptyRect = NInf" "minY emptyRect = PInf"
    "maxY emptyRect = NInf"
    by (simp_all add: emptyRect_def)
  show ?thesis
    unfolding r extents_foldl_unionRect mx my e
    using foldl_min_least [OF nx vx] foldl_max_greatest [OF nx vx]
      foldl_min_least [OF ny vy] foldl_max_greatest [OF ny vy]
      derived_foldl_unionRect [OF ne, of emptyRect]
    unfolding extents_foldl_unionRect mx my e
    by simp
qed

text \<open>
  With no position there is nothing to fold in: the recomputed box is the one \<open>initRect\<close>
  sets.
\<close>

lemma recomputed_box_empty: "positions i = [] \<Longrightarrow> rect (recomputeRect h i) = emptyRect"
  by (simp add: recomputeRect_eq)

text \<open>
  C3, amended: whatever the store holds, the full recomputation of a stroke with no position
  gives the box of \<open>initRect\<close>, that is \<open>minX = minY = Infinity\<close>, \<open>maxX = maxY = -Infinity\<close>
  and \<open>x = y = width = height = 0\<close>; for a stroke with at least one position and no \<open>NaN\<close>
  coordinate it gives a box whose \<open>minX\<close>, \<open>maxX\<close>, \<open>minY\<close>, \<open>maxY\<close> are the least and
  greatest x and y coordinates of the current positions, with \<open>x = minX\<close>, \<open>y = minY\<close>,
  \<open>width = maxX - minX\<close> and \<open>height = maxY - minY\<close>.
\<close>

theorem C3_recomputed_box:
  "(positions i = [] \<longrightarrow>
      rect (recomputeRect h i)
        = \<lparr>rect_width = Fin 0, rect_height = Fin 0, rect_x = Fin 0, rect_y = Fin 0,
           minX = PInf, maxX = NInf, minY = PInf, maxY = NInf\<rparr>)
   \<and> (positions i \<noteq> []
        \<and> (\<forall>r \<in> set (positions i). pos_x (h r) \<noteq> NaN \<and> pos_y (h r) \<noteq> NaN) \<longrightarrow>
      js_least (minX (rect (recomputeRect h i))) (map (\<lambda>r. pos_x (h r)) (positions i))
      \<and> js_greatest (maxX (rect (recomputeRect h i))) (map (\<lambda>r. pos_x (h r)) (positions i))
      \<and> js_least (minY (rect (recomputeRect h i))) (map (\<lambda>r. pos_y (h r)) (positions i))
      \<and> js_greatest (maxY (rect (recomputeRect h i))) (map (\<lambda>r. pos_y (h r)) (positions i))
      \<and> rect_x (rect (recomputeRect h i)) = minX (rect (recomputeRect h i))
      \<and> rect_y (rect (recomputeRect h i)) = minY (rect (recomputeRect h i))
      \<and> rect_width (rect (recomputeRect h i))
          = js_sub (maxX (rect (recomputeRect h i))) (minX (rect (recomputeRect h i)))
      \<and> rect_height (rect (recomputeRect h i))
          = js_sub (maxY (rect (recomputeRect h i))) (minY (rect (recomputeRect h i))))"
proof (rule conjI; rule impI)
  assume "positions i = []"
  then show "rect (recomputeRect h i)
        = \<lparr>rect_width = Fin 0, rect_height = Fin 0, rect_x = Fin 0, rect_y = Fin 0,
           minX = PInf, maxX = NInf, minY = PInf, maxY = NInf\<rparr>"
    by (simp add: recomputed_box_empty emptyRect_def)
next
  assume a: "positions i \<noteq> []
        \<and> (\<forall>r \<in> set (positions i). pos_x (h r) \<noteq> NaN \<and> pos_y (h r) \<noteq> NaN)"
  then have ne: "positions i \<noteq> []"
    and nn: "\<forall>r \<in> set (positions i). pos_x (h r) \<noteq> NaN \<and> pos_y (h r) \<noteq> NaN"
    by simp_all
  from recomputed_box_nonempty [OF ne nn]
  show "js_least (minX (rect (recomputeRect h i))) (map (\<lambda>r. pos_x (h r)) (positions i))
      \<and> js_greatest (maxX (rect (recomputeRect h i))) (map (\<lambda>r. pos_x (h r)) (positions i))
      \<and> js_least (minY (rect (recomputeRect h i))) (map (\<lambda>r. pos_y (h r)) (positions i))
      \<and> js_greatest (maxY (rect (recomputeRect h i))) (map (\<lambda>r. pos_y (h r)) (positions i))
      \<and> rect_x (rect (recomputeRect h i)) = minX (rect (recomputeRect h i))
      \<and> rect_y (rect (recomputeRect h i)) = minY (rect (recomputeRect h i))
      \<and> rect_width (rect (recomputeRect h i))
          = js_sub (maxX (rect (recomputeRect h i))) (minX (rect (recomputeRect h i)))
      \<and> rect_height (rect (recomputeRect h i))
          = js_sub (maxY (rect (recomputeRect h i))) (minY (rect (recomputeRect h i)))" .
qed

lemma js_least_pair: "js_least m [Fin a, Fin b] \<Longrightarrow> m = Fin (min a b)"
  by (auto simp: js_least_def min_def)

lemma js_greatest_pair: "js_greatest m [Fin a, Fin b] \<Longrightarrow> m = Fin (max a b)"
  by (auto simp: js_greatest_def max_def)

text \<open>
  The box of a stroke fresh from the constructor, and the box of the specification's
  scenario: \<open>{minX: 0, maxX: 10, minY: 0, maxY: 0, x: 0, y: 0, width: 10, height: 0}\<close>.
\<close>

theorem C3_recomputed_box_witness:
  "positions empty_stroke = []
   \<and> rect (recomputeRect origin_store empty_stroke) = emptyRect
   \<and> positions line_stroke \<noteq> []
   \<and> map (\<lambda>r. pos_x (line_store r)) (positions line_stroke) = [Fin 0, Fin 10]
   \<and> map (\<lambda>r. pos_y (line_store r)) (positions line_stroke) = [Fin 0, Fin 0]
   \<and> minX (rect (recomputeRect line_store line_stroke)) = Fin 0
   \<and> maxX (rect (recomputeRect line_store line_stroke)) = Fin 10
   \<and> minY (rect (recomputeRect line_store line_stroke)) = Fin 0
   \<and> maxY (rect (recomputeRect line_store line_stroke)) = Fin 0
   \<and> rect_x (rect (recomputeRect line_store line_stroke)) = Fin 0
   \<and> rect_y (rect (recomputeRect line_store line_stroke)) = Fin 0
   \<and> rect_width (rect (recomputeRect line_store line_stroke)) = Fin 10
   \<and> rect_height (rect (recomputeRect line_store line_stroke)) = Fin 0"
proof -
  have p: "positions line_stroke = [0, 1]"
    by (simp add: line_stroke_def positions_capture new_FreeDraw_def)
  have ne: "positions line_stroke \<noteq> []" by (simp add: p)
  have xs: "map (\<lambda>r. pos_x (line_store r)) (positions line_stroke) = [Fin 0, Fin 10]"
    and ys: "map (\<lambda>r. pos_y (line_store r)) (positions line_stroke) = [Fin 0, Fin 0]"
    by (simp_all add: p line_store_def)
  have nn: "\<forall>r \<in> set (positions line_stroke).
              pos_x (line_store r) \<noteq> NaN \<and> pos_y (line_store r) \<noteq> NaN"
    by (simp add: line_store_def)
  have pe: "positions empty_stroke = []"
    by (simp add: empty_stroke_def new_FreeDraw_def)
  have be: "rect (recomputeRect origin_store empty_stroke) = emptyRect"
    using C3_recomputed_box [of empty_stroke origin_store] pe by (simp add: emptyRect_def)
  have box: "js_least (minX (rect (recomputeRect line_store line_stroke))) [Fin 0, Fin 10]
      \<and> js_greatest (maxX (rect (recomputeRect line_store line_stroke))) [Fin 0, Fin 10]
      \<and> js_least (minY (rect (recomputeRect line_store line_stroke))) [Fin 0, Fin 0]
      \<and> js_greatest (maxY (rect (recomputeRect line_store line_stroke))) [Fin 0, Fin 0]
      \<and> rect_x (rect (recomputeRect line_store line_stroke))
          = minX (rect (recomputeRect line_store line_stroke))
      \<and> rect_y (rect (recomputeRect line_store line_stroke))
          = minY (rect (recomputeRect line_store line_stroke))
      \<and> rect_width (rect (recomputeRect line_store line_stroke))
          = js_sub (maxX (rect (recomputeRect line_store line_stroke)))
              (minX (rect (recomputeRect line_store line_stroke)))
      \<and> rect_height (rect (recomputeRect line_store line_stroke))
          = js_sub (maxY (rect (recomputeRect line_store line_stroke)))
              (minY (rect (recomputeRect line_store line_stroke)))"
    using conjunct2 [OF C3_recomputed_box [of line_stroke line_store]] ne nn
    unfolding xs ys by blast
  have e: "minX (rect (recomputeRect line_store line_stroke)) = Fin 0"
    "maxX (rect (recomputeRect line_store line_stroke)) = Fin 10"
    "minY (rect (recomputeRect line_store line_stroke)) = Fin 0"
    "maxY (rect (recomputeRect line_store line_stroke)) = Fin 0"
    using box js_least_pair [of _ 0 10] js_greatest_pair [of _ 0 10]
      js_least_pair [of _ 0 0] js_greatest_pair [of _ 0 0]
    by auto
  show ?thesis
    using box ne xs ys pe be unfolding e by (simp add: js_sub_def)
qed

subsection \<open>Finite positions give a finite box\<close>





section \<open>The transforms\<close>


lemma fold_forEach_distinct:
  "distinct rs \<Longrightarrow>
   fold (\<lambda>position (h, instance).
           (h(position := f (h position)), calculateRect instance (f (h position)))) rs (h, i)
   = ((\<lambda>r. if r \<in> set rs then f (h r) else h r),
      foldl calculateRect i (map (\<lambda>r. f (h r)) rs))"
proof (induction rs arbitrary: h i)
  case Nil
  then show ?case by simp
next
  case (Cons a rs)
  have a: "a \<notin> set rs" and d: "distinct rs" using Cons.prems by simp_all
  have m: "map (\<lambda>r. f ((h(a := f (h a))) r)) rs = map (\<lambda>r. f (h r)) rs"
    using a by (intro map_cong) auto
  have e: "(\<lambda>r. if r \<in> set rs then f ((h(a := f (h a))) r) else (h(a := f (h a))) r)
         = (\<lambda>r. if r \<in> set (a # rs) then f (h r) else h r)"
    using a by (auto simp: fun_eq_iff)
  show ?case
    by (simp only: fold_simps Cons.IH [OF d] prod.case m e foldl_Cons list.map)
qed


lemma forEachPosition_distinct:
  "distinct (positions i) \<Longrightarrow>
   forEachPosition f (h, initRect i)
   = ((\<lambda>r. if r \<in> set (positions i) then f (h r) else h r),
      recomputeRect (\<lambda>r. if r \<in> set (positions i) then f (h r) else h r) i)"
proof -
  assume d: "distinct (positions i)"
  have m: "map (\<lambda>r. if r \<in> set (positions i) then f (h r) else h r) (positions i)
             = map (\<lambda>r. f (h r)) (positions i)"
    by (intro map_cong) auto
  show ?thesis
    by (simp add: forEachPosition_def initRect_def fold_forEach_distinct [OF d] recomputeRect_def m)
qed

lemma positions_forEachPosition [simp]:
  "positions (snd (forEachPosition f s)) = positions (snd s)"
proof -
  have "positions (snd (fold (\<lambda>position (h, instance).
             (h(position := f (h position)), calculateRect instance (f (h position)))) rs s))
          = positions (snd s)" for rs
    by (induction rs arbitrary: s) (simp_all add: positions_calculateRect split: prod.splits)
  then show ?thesis by (simp add: forEachPosition_def)
qed

lemma boxed_forEachPosition:
  "distinct (positions i) \<Longrightarrow> forEachPosition f (h, initRect i) = (h', i') \<Longrightarrow> boxed h' i'"
  by (auto simp: forEachPosition_distinct boxed_def)

lemma boxed_moveFreeDraw:
  "distinct (positions i) \<Longrightarrow> moveFreeDraw (h, i) dx dy = (h', i') \<Longrightarrow> boxed h' i'"
  by (auto simp: moveFreeDraw_def dest: boxed_forEachPosition)

text \<open>
  Past its guard, \<open>resizeFreeDraw\<close> ends with a \<open>forEach\<close> that folds every position into a
  box reset before: the box it leaves is up to date.
\<close>

lemma resizeFreeDraw_unguarded:
  assumes "\<not> ((js_le (rect_width (rect i)) RECT_MIN_SIZE \<and> js_lt scaleX (Fin 1))
         \<or> (js_le (rect_height (rect i)) RECT_MIN_SIZE \<and> js_lt scaleY (Fin 1)))"
    and "forEachPosition
         (\<lambda>position. position\<lparr>pos_x := js_mul (pos_x position) scaleX,
                                pos_y := js_mul (pos_y position) scaleY\<rparr>)
         (h, initRect i) = (h1, i1)"
  shows "\<exists>ox oy. resizeFreeDraw RECT_MIN_SIZE (h, i) scaleX scaleY rect' resizeType
      = forEachPosition
          (\<lambda>position. position\<lparr>pos_x := js_sub (pos_x position) ox,
                                 pos_y := js_sub (pos_y position) oy\<rparr>)
          (h1, initRect i1)"
proof -
  have g: "\<And>a b. (if (js_le (rect_width (rect i)) RECT_MIN_SIZE \<and> js_lt scaleX (Fin 1))
         \<or> (js_le (rect_height (rect i)) RECT_MIN_SIZE \<and> js_lt scaleY (Fin 1)) then a else b) = b"
    using assms(1) by (simp only: if_False)
  show ?thesis
    unfolding resizeFreeDraw_def fst_conv snd_conv assms(2) Let_def g
    by (cases resizeType; simp only: RESIZE_TYPE.case prod.case; blast)
qed

lemma boxed_resizeFreeDraw:
  assumes "distinct (positions i)" and "boxed h i"
    and "resizeFreeDraw RECT_MIN_SIZE (h, i) scaleX scaleY rect' resizeType = (h', i')"
  shows "boxed h' i'"
proof (cases "(js_le (rect_width (rect i)) RECT_MIN_SIZE \<and> js_lt scaleX (Fin 1))
         \<or> (js_le (rect_height (rect i)) RECT_MIN_SIZE \<and> js_lt scaleY (Fin 1))")
  case True
  then have "resizeFreeDraw RECT_MIN_SIZE (h, i) scaleX scaleY rect' resizeType = (h, i)"
    by (simp add: resizeFreeDraw_def)
  then show ?thesis using assms(2,3) by simp
next
  case False
  obtain h1 i1 where s1: "forEachPosition
         (\<lambda>position. position\<lparr>pos_x := js_mul (pos_x position) scaleX,
                                pos_y := js_mul (pos_y position) scaleY\<rparr>)
         (h, initRect i) = (h1, i1)"
    by (rule prod.exhaust)
  have "positions (snd (forEachPosition
         (\<lambda>position. position\<lparr>pos_x := js_mul (pos_x position) scaleX,
                                pos_y := js_mul (pos_y position) scaleY\<rparr>)
         (h, initRect i))) = positions (snd (h, initRect i))"
    by (rule positions_forEachPosition)
  then have "positions i1 = positions i"
    unfolding s1 by (simp add: initRect_def)
  then have d1: "distinct (positions i1)" using assms(1) by simp
  from resizeFreeDraw_unguarded [OF False s1]
  obtain ox oy where "resizeFreeDraw RECT_MIN_SIZE (h, i) scaleX scaleY rect' resizeType
      = forEachPosition
          (\<lambda>position. position\<lparr>pos_x := js_sub (pos_x position) ox,
                                 pos_y := js_sub (pos_y position) oy\<rparr>)
          (h1, initRect i1)"
    by blast
  then show ?thesis
    using assms(3) boxed_forEachPosition [OF d1] by simp
qed



lemma shift_back_fixed:
  "finite_position p \<Longrightarrow>
   p\<lparr>pos_x := js_add (js_add (pos_x p) (Fin dx)) (Fin (- dx)),
     pos_y := js_add (js_add (pos_y p) (Fin dy)) (Fin (- dy))\<rparr> = p"
  by (cases p) (auto simp: finite_position_def is_finite_iff)



lemma moveFreeDraw_distinct:
  "distinct (positions i) \<Longrightarrow>
   moveFreeDraw (h, i) dx dy
     = (shift_store (set (positions i)) dx dy h,
        recomputeRect (shift_store (set (positions i)) dx dy h) i)"
  by (simp add: moveFreeDraw_def forEachPosition_distinct shift_store_def)

lemma shift_store_back:
  "\<forall>r \<in> S. finite_position (h r) \<Longrightarrow>
   shift_store S (Fin (- dx)) (Fin (- dy)) (shift_store S (Fin dx) (Fin dy) h) = h"
  by (auto simp: shift_store_def fun_eq_iff shift_back_fixed)

text \<open>
  An object that is visited \<open>n\<close> times by one \<open>forEach\<close> is written \<open>n\<close> times. Moving there
  and back therefore restores every finite position, shared or not.
\<close>

lemma moveFreeDraw_shift:
  "moveFreeDraw (h, i) dx dy = forEachPosition (shift_position dx dy) (h, initRect i)"
  by (simp add: moveFreeDraw_def shift_position_def [abs_def])

lemma fst_fold_forEach:
  "fst (fold (\<lambda>position (h, instance).
           (h(position := f (h position)), calculateRect instance (f (h position)))) rs (h, i))
   = (\<lambda>r. (f ^^ count_list rs r) (h r))"
proof (induction rs arbitrary: h i)
  case Nil
  then show ?case by simp
next
  case (Cons a rs)
  have "fst (fold (\<lambda>position (h, instance).
           (h(position := f (h position)), calculateRect instance (f (h position)))) (a # rs) (h, i))
        = (\<lambda>r. (f ^^ count_list rs r) ((h(a := f (h a))) r))"
    by (simp only: fold_simps prod.case Cons.IH)
  also have "\<dots> = (\<lambda>r. (f ^^ count_list (a # rs) r) (h r))"
    by (auto simp: fun_eq_iff funpow_swap1)
  finally show ?case .
qed

lemma fst_forEachPosition:
  "fst (forEachPosition f (h, j)) = (\<lambda>r. (f ^^ count_list (positions j) r) (h r))"
  by (simp add: forEachPosition_def fst_fold_forEach)

lemma finite_shift_position:
  "finite_position p \<Longrightarrow> finite_position (shift_position (Fin dx) (Fin dy) p)"
  by (auto simp: finite_position_def shift_position_def is_finite_iff)

lemma shift_position_back:
  "finite_position p \<Longrightarrow>
   shift_position (Fin (- dx)) (Fin (- dy)) (shift_position (Fin dx) (Fin dy) p) = p"
  by (cases p) (auto simp: finite_position_def shift_position_def is_finite_iff)

lemma finite_shift_position_funpow:
  "finite_position p \<Longrightarrow> finite_position ((shift_position (Fin dx) (Fin dy) ^^ n) p)"
  by (induction n) (simp_all add: finite_shift_position)

lemma shift_position_back_funpow:
  assumes "finite_position p"
  shows "(shift_position (Fin (- dx)) (Fin (- dy)) ^^ n)
           ((shift_position (Fin dx) (Fin dy) ^^ n) p) = p"
proof (induction n)
  case 0
  then show ?case by simp
next
  case (Suc n)
  have q: "finite_position ((shift_position (Fin dx) (Fin dy) ^^ n) p)"
    using assms by (rule finite_shift_position_funpow)
  have "(shift_position (Fin (- dx)) (Fin (- dy)) ^^ Suc n)
           ((shift_position (Fin dx) (Fin dy) ^^ Suc n) p)
        = (shift_position (Fin (- dx)) (Fin (- dy)) ^^ n)
            (shift_position (Fin (- dx)) (Fin (- dy))
               (shift_position (Fin dx) (Fin dy) ((shift_position (Fin dx) (Fin dy) ^^ n) p)))"
    by (simp only: funpow_swap1 funpow.simps o_apply)
  also have "\<dots> = (shift_position (Fin (- dx)) (Fin (- dy)) ^^ n)
                     ((shift_position (Fin dx) (Fin dy) ^^ n) p)"
    by (simp only: shift_position_back [OF q])
  finally show ?case by (simp only: Suc.IH)
qed

lemma moveFreeDraw_positions_restored:
  assumes "\<forall>r \<in> set (positions i). finite_position (h r)"
  shows "fst (moveFreeDraw (moveFreeDraw (h, i) (Fin dx) (Fin dy)) (Fin (- dx)) (Fin (- dy))) = h"
proof -
  obtain h1 i1 where s1: "moveFreeDraw (h, i) (Fin dx) (Fin dy) = (h1, i1)"
    by (rule prod.exhaust)
  have fe: "forEachPosition (shift_position (Fin dx) (Fin dy)) (h, initRect i) = (h1, i1)"
    using s1 by (simp only: moveFreeDraw_shift)
  have pi: "positions (initRect i) = positions i" "positions (initRect i1) = positions i1"
    by (simp_all add: initRect_def)
  have h1: "h1 = (\<lambda>r. (shift_position (Fin dx) (Fin dy) ^^ count_list (positions i) r) (h r))"
    using fst_forEachPosition [of "shift_position (Fin dx) (Fin dy)" h "initRect i"]
    unfolding fe pi by simp
  have p1: "positions i1 = positions i"
    using positions_forEachPosition [of "shift_position (Fin dx) (Fin dy)" "(h, initRect i)"]
    unfolding fe by (simp add: pi)
  have "fst (moveFreeDraw (h1, i1) (Fin (- dx)) (Fin (- dy)))
          = (\<lambda>r. (shift_position (Fin (- dx)) (Fin (- dy)) ^^ count_list (positions i) r) (h1 r))"
    by (simp only: moveFreeDraw_shift fst_forEachPosition pi p1)
  also have "\<dots> = h"
  proof
    fix r
    show "(shift_position (Fin (- dx)) (Fin (- dy)) ^^ count_list (positions i) r) (h1 r) = h r"
    proof (cases "r \<in> set (positions i)")
      case True
      then have "finite_position (h r)" using assms by simp
      then show ?thesis unfolding h1 by (rule shift_position_back_funpow)
    next
      case False
      then have "count_list (positions i) r = 0" by (simp add: count_list_0_iff)
      then show ?thesis by (simp add: h1)
    qed
  qed
  finally show ?thesis by (simp only: s1)
qed

lemma moveFreeDraw_positions_kept:
  "positions (snd (moveFreeDraw s dx dy)) = positions (snd s)"
  by (simp add: moveFreeDraw_def initRect_def)

text \<open>
  C6, as the specification states it, fails on a stroke that was handed the same object
  twice. The positions are references, and \<open>addPosition\<close> stores the object it is given:
  \<open>forEach\<close> then visits that object twice, moves it twice and folds both intermediate
  values into the box. Two samples sharing one object at the origin, moved by \<open>(5, 0)\<close> and
  then by \<open>(-5, 0)\<close>: the box was up to date and \<open>{minX: 0, maxX: 0, width: 0}\<close> before, and
  is \<open>{minX: 0, maxX: 5, width: 5}\<close> after.
\<close>

theorem C6_shared_object_box:
  "aliased_stroke = capture origin_store [(0, 7), (100, 7)] (new_FreeDraw ''#000000'' (Fin 10) (Fin 0))
   \<and> positions aliased_stroke = [7, 7]
   \<and> finite_position (origin_store 7)
   \<and> boxed origin_store aliased_stroke
   \<and> rect aliased_stroke
     = \<lparr>rect_width = Fin 0, rect_height = Fin 0, rect_x = Fin 0, rect_y = Fin 0,
        minX = Fin 0, maxX = Fin 0, minY = Fin 0, maxY = Fin 0\<rparr>
   \<and> rect (snd (moveFreeDraw (moveFreeDraw (origin_store, aliased_stroke) (Fin 5) (Fin 0))
                   (Fin (- 5)) (Fin 0)))
     = \<lparr>rect_width = Fin 5, rect_height = Fin 0, rect_x = Fin 0, rect_y = Fin 0,
        minX = Fin 0, maxX = Fin 5, minY = Fin 0, maxY = Fin 0\<rparr>
   \<and> rect (snd (moveFreeDraw (moveFreeDraw (origin_store, aliased_stroke) (Fin 5) (Fin 0))
                   (Fin (- 5)) (Fin 0)))
     \<noteq> rect aliased_stroke"
proof -
  have p: "positions aliased_stroke = [7, 7]"
    by (simp add: aliased_stroke_def positions_capture empty_stroke_def new_FreeDraw_def)
  have b: "boxed origin_store aliased_stroke"
    unfolding aliased_stroke_def empty_stroke_def by (intro boxed_capture boxed_new)
  have r: "rect aliased_stroke
     = \<lparr>rect_width = Fin 0, rect_height = Fin 0, rect_x = Fin 0, rect_y = Fin 0,
        minX = Fin 0, maxX = Fin 0, minY = Fin 0, maxY = Fin 0\<rparr>"
    using b by (simp add: boxed_eq p origin_store_def unionRect_def emptyRect_def Let_def
        js_gt_def js_sub_def)
  have m1: "fst (moveFreeDraw (origin_store, aliased_stroke) (Fin 5) (Fin 0)) 7
              = \<lparr>pos_x = Fin 10, pos_y = Fin 0\<rparr>"
    by (simp add: moveFreeDraw_def forEachPosition_def p initRect_def origin_store_def)
  have p1: "positions (snd (moveFreeDraw (origin_store, aliased_stroke) (Fin 5) (Fin 0))) = [7, 7]"
    by (simp add: moveFreeDraw_def p initRect_def)
  obtain h1 i1 where s1: "moveFreeDraw (origin_store, aliased_stroke) (Fin 5) (Fin 0) = (h1, i1)"
    by (cases "moveFreeDraw (origin_store, aliased_stroke) (Fin 5) (Fin 0)")
  have h1: "h1 7 = \<lparr>pos_x = Fin 10, pos_y = Fin 0\<rparr>" and i1: "positions i1 = [7, 7]"
    using m1 p1 by (simp_all add: s1)
  have "rect (snd (moveFreeDraw (h1, i1) (Fin (- 5)) (Fin 0)))
     = \<lparr>rect_width = Fin 5, rect_height = Fin 0, rect_x = Fin 0, rect_y = Fin 0,
        minX = Fin 0, maxX = Fin 5, minY = Fin 0, maxY = Fin 0\<rparr>"
    by (simp add: moveFreeDraw_def forEachPosition_def i1 h1 initRect_def calculateRect_unionRect
        unionRect_def emptyRect_def Let_def js_gt_def js_sub_def)
  then have after: "rect (snd (moveFreeDraw (moveFreeDraw (origin_store, aliased_stroke) (Fin 5) (Fin 0))
                   (Fin (- 5)) (Fin 0)))
     = \<lparr>rect_width = Fin 5, rect_height = Fin 0, rect_x = Fin 0, rect_y = Fin 0,
        minX = Fin 0, maxX = Fin 5, minY = Fin 0, maxY = Fin 0\<rparr>"
    by (simp add: s1)
  have f: "finite_position (origin_store 7)"
    by (simp add: finite_position_def origin_store_def)
  have d: "aliased_stroke
      = capture origin_store [(0, 7), (100, 7)] (new_FreeDraw ''#000000'' (Fin 10) (Fin 0))"
    by (simp add: aliased_stroke_def empty_stroke_def)
  show ?thesis
    unfolding after r using p b f d by simp
qed

text \<open>
  C6, amended: for a stroke with finite coordinates, moving by \<open>(dx, dy)\<close> and then by
  \<open>(-dx, -dy)\<close> gives back the store (every position) and leaves the \<open>positions\<close> array as
  it was; when moreover the positions are distinct objects and the box was up to date, it
  gives back the whole stroke, its box included.
\<close>

theorem C6_translate_round_trip:
  assumes "\<forall>r \<in> set (positions i). finite_position (h r)"
  shows "fst (moveFreeDraw (moveFreeDraw (h, i) (Fin dx) (Fin dy)) (Fin (- dx)) (Fin (- dy))) = h
     \<and> positions (snd (moveFreeDraw (moveFreeDraw (h, i) (Fin dx) (Fin dy))
                           (Fin (- dx)) (Fin (- dy)))) = positions i
     \<and> (distinct (positions i) \<and> boxed h i \<longrightarrow>
          moveFreeDraw (moveFreeDraw (h, i) (Fin dx) (Fin dy)) (Fin (- dx)) (Fin (- dy)) = (h, i))"
proof (intro conjI impI)
  show "fst (moveFreeDraw (moveFreeDraw (h, i) (Fin dx) (Fin dy)) (Fin (- dx)) (Fin (- dy))) = h"
    using assms by (rule moveFreeDraw_positions_restored)
  show "positions (snd (moveFreeDraw (moveFreeDraw (h, i) (Fin dx) (Fin dy))
                           (Fin (- dx)) (Fin (- dy)))) = positions i"
    by (simp only: moveFreeDraw_positions_kept snd_conv)
next
  assume a: "distinct (positions i) \<and> boxed h i"
  let ?h1 = "shift_store (set (positions i)) (Fin dx) (Fin dy) h"
  have d: "distinct (positions i)" and b: "boxed h i" using a by simp_all
  have d1: "distinct (positions (recomputeRect ?h1 i))" using d by simp
  have "moveFreeDraw (moveFreeDraw (h, i) (Fin dx) (Fin dy)) (Fin (- dx)) (Fin (- dy))
          = moveFreeDraw (?h1, recomputeRect ?h1 i) (Fin (- dx)) (Fin (- dy))"
    by (simp only: moveFreeDraw_distinct [OF d])
  also have "\<dots> = (h, recomputeRect h i)"
    by (simp only: moveFreeDraw_distinct [OF d1] positions_recomputeRect
        shift_store_back [OF assms] recomputeRect_recomputeRect)
  also have "\<dots> = (h, i)"
    using b by (simp only: boxed_recompute)
  finally show "moveFreeDraw (moveFreeDraw (h, i) (Fin dx) (Fin dy)) (Fin (- dx)) (Fin (- dy))
                  = (h, i)" .
qed

text \<open>
  The translation scenario of the specification: the stroke of \<open>(0, 0)\<close> and \<open>(10, 0)\<close>
  moved by \<open>(5, -3)\<close> and back.
\<close>

theorem C6_translate_round_trip_witness:
  "distinct (positions line_stroke)
   \<and> boxed line_store line_stroke
   \<and> moveFreeDraw (moveFreeDraw (line_store, line_stroke) (Fin 5) (Fin (- 3)))
        (Fin (- 5)) (Fin (- (- 3)))
       = (line_store, line_stroke)"
proof -
  have b: "boxed line_store line_stroke"
    unfolding line_stroke_def by (intro boxed_capture boxed_new)
  have p: "positions line_stroke = [0, 1]"
    by (simp add: line_stroke_def positions_capture new_FreeDraw_def)
  have d: "distinct (positions line_stroke)" by (simp add: p)
  have f: "\<forall>r \<in> set (positions line_stroke). finite_position (line_store r)"
    by (simp add: finite_position_def line_store_def)
  from C6_translate_round_trip [OF f, of 5 "- 3"] show ?thesis
    using b d by simp
qed

lemma translate_scenario:
  "map (fst (moveFreeDraw (line_store, line_stroke) (Fin 5) (Fin (- 3)))) (positions line_stroke)
     = [\<lparr>pos_x = Fin 5, pos_y = Fin (- 3)\<rparr>, \<lparr>pos_x = Fin 15, pos_y = Fin (- 3)\<rparr>]
   \<and> rect (snd (moveFreeDraw (line_store, line_stroke) (Fin 5) (Fin (- 3))))
     = \<lparr>rect_width = Fin 10, rect_height = Fin 0, rect_x = Fin 5, rect_y = Fin (- 3),
        minX = Fin 5, maxX = Fin 15, minY = Fin (- 3), maxY = Fin (- 3)\<rparr>"
proof -
  have p: "positions line_stroke = [0, 1]"
    by (simp add: line_stroke_def positions_capture new_FreeDraw_def)
  show ?thesis
    by (simp add: moveFreeDraw_def forEachPosition_def p initRect_def calculateRect_def
        emptyRect_def Let_def js_gt_def js_sub_def line_store_def)
qed

text \<open>
  C7: when the width of the box is at most \<open>RECT_MIN_SIZE\<close> and \<open>scaleX < 1\<close>, or its
  height is at most \<open>RECT_MIN_SIZE\<close> and \<open>scaleY < 1\<close>, \<open>resizeFreeDraw\<close> returns the store
  and the stroke as they were.
\<close>

theorem C7_resize_guard:
  assumes "(js_le (rect_width (rect i)) RECT_MIN_SIZE \<and> js_lt scaleX (Fin 1))
         \<or> (js_le (rect_height (rect i)) RECT_MIN_SIZE \<and> js_lt scaleY (Fin 1))"
  shows "resizeFreeDraw RECT_MIN_SIZE (h, i) scaleX scaleY rect' resizeType = (h, i)"
  using assms by (simp add: resizeFreeDraw_def)

theorem C7_resize_guard_witness:
  "js_le (rect_height (rect line_stroke)) (Fin 5)
   \<and> js_lt (Fin (1 / 2)) (Fin 1)
   \<and> resizeFreeDraw (Fin 5) (line_store, line_stroke) (Fin 2) (Fin (1 / 2)) (rect line_stroke)
        BOTTOM_RIGHT = (line_store, line_stroke)"
proof -
  have b: "boxed line_store line_stroke"
    unfolding line_stroke_def by (intro boxed_capture boxed_new)
  have p: "positions line_stroke = [0, 1]"
    by (simp add: line_stroke_def positions_capture new_FreeDraw_def)
  have r: "rect_height (rect line_stroke) = Fin 0"
    using b by (simp add: boxed_eq p line_store_def unionRect_def emptyRect_def Let_def
        js_gt_def js_sub_def)
  have g: "(js_le (rect_width (rect line_stroke)) (Fin 5) \<and> js_lt (Fin 2) (Fin 1))
         \<or> (js_le (rect_height (rect line_stroke)) (Fin 5) \<and> js_lt (Fin (1 / 2)) (Fin 1))"
    by (simp add: r)
  from C7_resize_guard [OF g] show ?thesis by (simp add: r)
qed

end
